theory Spec2Isabelle
  imports Complex_Main "HOL-Library.Sublist"
begin

section \<open>Python values, strings and errors\<close>

text \<open>
  The module \<^verbatim>\<open>mara_data_explorer/query.py\<close> is embedded function by function.
  Python strings are modelled as \<^typ>\<open>string\<close> (ASCII text), Python integers as
  \<^typ>\<open>int\<close>, and every exception the embedded code can raise is a value of
  \<open>error\<close>, returned as \<open>Inl\<close>.
\<close>

datatype error =
    KeyError
  | IndexError
  | TypeError
  | AttributeError
  | UnboundLocalError
  | DataSetNotFound
  | ExecutionError string

text \<open>
  The values a filter can carry (they arrive as decoded JSON): \<^verbatim>\<open>None\<close>, a string,
  an integer, or a list of such values.
\<close>

datatype pyval = PNone | PStr string | PInt int | PList "pyval list"

abbreviation sq :: string where "sq \<equiv> [CHR 0x27]"
abbreviation dq :: string where "dq \<equiv> [CHR 0x22]"

text \<open>\<^verbatim>\<open>sep.join(xs)\<close>\<close>

fun join :: "string \<Rightarrow> string list \<Rightarrow> string" where
  "join sep [] = []"
| "join sep [x] = x"
| "join sep (x # y # ys) = x @ sep @ join sep (y # ys)"

text \<open>\<^verbatim>\<open>s.replace(c, r)\<close> for a one-character pattern \<open>c\<close>.\<close>

definition replace_char :: "char \<Rightarrow> string \<Rightarrow> string \<Rightarrow> string" where
  "replace_char c r s = concat (map (\<lambda>x. if x = c then r else [x]) s)"

text \<open>Decimal rendering of integers, \<^verbatim>\<open>str(n)\<close>.\<close>

definition digit :: "nat \<Rightarrow> char" where
  "digit n = ''0123456789'' ! (n mod 10)"

function str_nat :: "nat \<Rightarrow> string" where
  "str_nat n = (if n < 10 then [digit n] else str_nat (n div 10) @ [digit n])"
  by pat_completeness auto
termination
  by (relation "measure (\<lambda>n. n)") auto

declare str_nat.simps [simp del]

definition str_int :: "int \<Rightarrow> string" where
  "str_int i = (if i < 0 then ''-'' @ str_nat (nat (- i)) else str_nat (nat i))"

text \<open>
  \<^verbatim>\<open>repr(s)\<close> of an ASCII string: single quotes unless the string holds a single
  quote and no double quote; backslash, the chosen quote, tab, newline and carriage return
  are escaped with a backslash, other control characters as \<^verbatim>\<open>\xNN\<close>.
\<close>

definition hex_digit :: "nat \<Rightarrow> char" where
  "hex_digit n = ''0123456789abcdef'' ! (n mod 16)"

definition repr_char :: "char \<Rightarrow> char \<Rightarrow> string" where
  "repr_char q c =
     (if c = CHR 0x5C then [CHR 0x5C, CHR 0x5C]
      else if c = q then [CHR 0x5C, q]
      else if c = CHR 0x09 then [CHR 0x5C, CHR ''t'']
      else if c = CHR 0x0A then [CHR 0x5C, CHR ''n'']
      else if c = CHR 0x0D then [CHR 0x5C, CHR ''r'']
      else if (of_char c :: nat) < 32 \<or> (of_char c :: nat) = 127
        then [CHR 0x5C, CHR ''x'', hex_digit (of_char c div 16), hex_digit (of_char c)]
      else [c])"

definition repr_str :: "string \<Rightarrow> string" where
  "repr_str s =
     (let q = (if CHR 0x27 \<in> set s \<and> CHR 0x22 \<notin> set s then CHR 0x22 else CHR 0x27)
      in [q] @ concat (map (repr_char q) s) @ [q])"

fun py_repr :: "pyval \<Rightarrow> string" where
  "py_repr PNone = ''None''"
| "py_repr (PStr s) = repr_str s"
| "py_repr (PInt i) = str_int i"
| "py_repr (PList xs) = ''['' @ join '', '' (map py_repr xs) @ '']''"

text \<open>\<^verbatim>\<open>str(v)\<close>, which is what an f-string placeholder \<^verbatim>\<open>{v}\<close> renders.\<close>

fun py_str :: "pyval \<Rightarrow> string" where
  "py_str (PStr s) = s"
| "py_str v = py_repr v"

text \<open>Truthiness, as \<^verbatim>\<open>if v\<close>, \<^verbatim>\<open>not v\<close> and \<^verbatim>\<open>v or w\<close> read it.\<close>

fun truthy :: "pyval \<Rightarrow> bool" where
  "truthy PNone = False"
| "truthy (PStr s) = (s \<noteq> [])"
| "truthy (PInt i) = (i \<noteq> 0)"
| "truthy (PList xs) = (xs \<noteq> [])"

text \<open>
  \<^verbatim>\<open>for value in v\<close>: a list yields its elements, a string its characters (each a
  one-character string); \<^verbatim>\<open>None\<close> and integers are not iterable.
\<close>

fun py_iter :: "pyval \<Rightarrow> error + pyval list" where
  "py_iter (PList xs) = Inr xs"
| "py_iter (PStr s) = Inr (map (\<lambda>c. PStr [c]) s)"
| "py_iter PNone = Inl TypeError"
| "py_iter (PInt i) = Inl TypeError"

text \<open>A list comprehension whose element expression may raise: the first error wins.\<close>

fun sequence :: "(error + 'a) list \<Rightarrow> error + 'a list" where
  "sequence [] = Inr []"
| "sequence (Inl e # rs) = Inl e"
| "sequence (Inr x # rs) = (case sequence rs of Inl e \<Rightarrow> Inl e | Inr xs \<Rightarrow> Inr (x # xs))"

text \<open>Python indexing \<^verbatim>\<open>xs[i]\<close>: negative indices count from the end.\<close>

definition py_index :: "'a list \<Rightarrow> int \<Rightarrow> error + 'a" where
  "py_index xs i =
     (if 0 \<le> i \<and> i < int (length xs) then Inr (xs ! nat i)
      else if - int (length xs) \<le> i \<and> i < 0 then Inr (xs ! nat (int (length xs) + i))
      else Inl IndexError)"

section \<open>Collaborators: quoting and the data set\<close>

text \<open>
  Modelled from the spec: \<^verbatim>\<open>quote_identifier\<close> and \<^verbatim>\<open>quote_text_literal\<close> of the
  module \<^verbatim>\<open>sql\<close>, which is imported by the query module. The spec describes them as
  pure functions that wrap the name or the text in the dialect's quotes and escape
  embedded quote characters; the PostgreSQL dialect is modelled (double quotes for
  identifiers, single quotes for literals, an embedded quote doubled). The first argument
  is the database alias.
\<close>

definition quote_identifier :: "string \<Rightarrow> string \<Rightarrow> string" where
  "quote_identifier db name = dq @ replace_char (CHR 0x22) (dq @ dq) name @ dq"

definition quote_text_literal :: "string \<Rightarrow> pyval \<Rightarrow> string" where
  "quote_text_literal db v = sq @ replace_char (CHR 0x27) (sq @ sq) (py_str v) @ sq"

text \<open>
  The data set, as the query module reads it: \<^verbatim>\<open>columns\<close> is a dictionary from
  column name to column, kept in insertion order as a list of pairs with one pair per
  name; of a column only \<^verbatim>\<open>type\<close> is read.
\<close>

record Column =
  type' :: string

record DataSet =
  id' :: string
  database_alias :: string
  database_schema :: string
  database_table :: string
  columns :: "(string \<times> Column) list"
  default_column_names :: "string list"
  personal_data_column_names :: "string list"

text \<open>\<^verbatim>\<open>name in data_set.columns\<close>\<close>

definition in_columns :: "string \<Rightarrow> DataSet \<Rightarrow> bool" where
  "in_columns name ds = (map_of (columns ds) name \<noteq> None)"

text \<open>\<^verbatim>\<open>list(data_set.columns.keys())\<close>: the keys in insertion order.\<close>

definition column_keys :: "DataSet \<Rightarrow> string list" where
  "column_keys ds = map fst (columns ds)"

text \<open>
  Modelled from the spec: \<^verbatim>\<open>find_data_set\<close> of the module \<^verbatim>\<open>data_set\<close>. It
  resolves a data set by its id among the configured data sets and fails with
  \<open>DataSetNotFound\<close> when the id is unknown.
\<close>

definition find_data_set :: "DataSet list \<Rightarrow> string \<Rightarrow> error + DataSet" where
  "find_data_set dss i =
     (case find (\<lambda>ds. id' ds = i) dss of None \<Rightarrow> Inl DataSetNotFound | Some ds \<Rightarrow> Inr ds)"

section \<open>Filters\<close>

record Filter =
  column_name :: string
  operator :: string
  value' :: pyval

text \<open>\<^verbatim>\<open>Filter.to_dict\<close> and \<^verbatim>\<open>Filter.from_dict\<close>; the dictionary has three fixed keys.\<close>

record filter_dict =
  d_column_name :: string
  d_operator :: string
  d_value :: pyval

definition Filter_to_dict :: "Filter \<Rightarrow> filter_dict" where
  "Filter_to_dict f =
     \<lparr>d_column_name = column_name f, d_operator = operator f, d_value = value' f\<rparr>"

definition Filter_from_dict :: "filter_dict \<Rightarrow> Filter" where
  "Filter_from_dict d =
     \<lparr>column_name = d_column_name d, operator = d_operator d, value' = d_value d\<rparr>"

text \<open>\<^verbatim>\<open>filter.value or ['']\<close>\<close>

definition value_or_empty :: "pyval \<Rightarrow> pyval" where
  "value_or_empty v = (if truthy v then v else PList [PStr []])"

text \<open>\<^verbatim>\<open>Query.filter_to_sql\<close>: one filter as a part of a WHERE expression.\<close>

definition filter_to_sql :: "DataSet \<Rightarrow> Filter \<Rightarrow> error + string" where
  "filter_to_sql ds f =
     (case map_of (columns ds) (column_name f) of
        None \<Rightarrow> Inl KeyError
      | Some col \<Rightarrow>
          (let db = database_alias ds in
           if type' col = ''text'' then
             (if operator f = ''~'' then
                (case py_iter (value_or_empty (value' f)) of
                   Inl e \<Rightarrow> Inl e
                 | Inr vs \<Rightarrow>
                     Inr (''('' @ join '' OR ''
                       (map (\<lambda>v. ''lower('' @ quote_identifier db (column_name f)
                                  @ '') LIKE concat('%', '' @ quote_text_literal db v
                                  @ '', '%')'') vs) @ '')''))
              else
                (case py_iter (value_or_empty (value' f)) of
                   Inl e \<Rightarrow> Inl e
                 | Inr vs \<Rightarrow>
                     Inr (quote_identifier db (column_name f) @ '' ''
                       @ (if operator f = ''='' then ''IN'' else ''NOT IN'') @ '' (''
                       @ join '', '' (map (\<lambda>v. sq @ py_str v @ sq) vs) @ '')'')))
           else if type' col = ''text[]'' then
             (case py_iter (value_or_empty (value' f)) of
                Inl e \<Rightarrow> Inl e
              | Inr vs \<Rightarrow>
                  (let clause = quote_identifier db (column_name f) @ '' && ARRAY[''
                         @ join '', '' (map (\<lambda>v. sq @ py_str v @ sq) vs) @ '']::TEXT[]''
                   in Inr (if operator f = ''!='' then '' not ('' @ clause @ '')'' else clause)))
           else if type' col = ''number'' then
             Inr (quote_identifier db (column_name f) @ '' '' @ operator f @ '' ''
                  @ py_str (value' f))
           else if type' col = ''date'' then
             Inr (quote_identifier db (column_name f) @ '' '' @ operator f @ '' '' @ sq
                  @ py_str (value' f) @ sq @ '' '')
           else Inr ''1=1''))"

section \<open>Queries\<close>

text \<open>
  A time stamp attribute holds \<^verbatim>\<open>None\<close>, a \<^verbatim>\<open>datetime\<close>, or (when the query was
  built from a dictionary) a string.
\<close>

record datetime =
  year :: nat
  month :: nat
  day :: nat
  hour :: nat
  minute :: nat
  second :: nat

datatype timestamp = TNone | TDatetime datetime | TStr string

record Query =
  data_set :: DataSet
  data_set_id :: string
  query_id :: string
  column_names :: "string list"
  sort_column_name :: "string option"
  sort_order :: "string option"
  filters :: "Filter list"
  created_at :: timestamp
  created_by :: "string option"
  updated_at :: timestamp
  updated_by :: "string option"

text \<open>
  \<^verbatim>\<open>re.sub(r'\W+', '-', s)\<close> and \<^verbatim>\<open>s.lower()\<close> belong to Python's library and read
  the Unicode character database: which characters are word characters, and what the
  lower case of a string is (it can be longer than the string). They are parameters of
  the model.
\<close>

record text_library =
  re_sub_nonword :: "string \<Rightarrow> string"
  str_lower :: "string \<Rightarrow> string"

text \<open>\<^verbatim>\<open>re.sub(r'\W+', '-', query_id).lower() if query_id else ''\<close>\<close>

definition normalize_query_id :: "text_library \<Rightarrow> string option \<Rightarrow> string" where
  "normalize_query_id lib query_id' =
     (case query_id' of
        None \<Rightarrow> []
      | Some s \<Rightarrow> if s \<noteq> [] then str_lower lib (re_sub_nonword lib s) else [])"

text \<open>
  \<^verbatim>\<open>Query.__init__\<close>. The arguments follow the signature; \<open>lib\<close> is the text library
  and \<open>dss\<close> are the configured data sets that \<^verbatim>\<open>find_data_set\<close> searches.
\<close>

definition Query_init ::
  "text_library \<Rightarrow> DataSet list \<Rightarrow> string \<Rightarrow> string option \<Rightarrow> string list option \<Rightarrow> string option
     \<Rightarrow> string option \<Rightarrow> Filter list option \<Rightarrow> timestamp \<Rightarrow> string option \<Rightarrow> timestamp
     \<Rightarrow> string option \<Rightarrow> error + Query" where
  "Query_init lib dss dsid qid cols sort_col sort_ord fs c_at c_by u_at u_by =
     (case find_data_set dss dsid of
        Inl e \<Rightarrow> Inl e
      | Inr ds \<Rightarrow>
          (let cols1 = (case cols of None \<Rightarrow> [] | Some cs \<Rightarrow> cs);
               cols2 = (if cols1 = []
                        then [c \<leftarrow> default_column_names ds. in_columns c ds] else cols1);
               cols3 = (if cols2 = [] then column_keys ds else cols2)
           in Inr \<lparr>data_set = ds,
                  data_set_id = dsid,
                  query_id = normalize_query_id lib qid,
                  column_names = cols3,
                  sort_column_name =
                    (case sort_col of
                       None \<Rightarrow> None
                     | Some c \<Rightarrow> if in_columns c ds then Some c else None),
                  sort_order = sort_ord,
                  filters =
                    [f \<leftarrow> (case fs of None \<Rightarrow> [] | Some xs \<Rightarrow> xs). in_columns (column_name f) ds],
                  created_at = c_at,
                  created_by = c_by,
                  updated_at = u_at,
                  updated_by = u_by\<rparr>))"

subsection \<open>Serialisation\<close>

text \<open>The dictionary of \<^verbatim>\<open>Query.to_dict\<close>: ten fixed keys.\<close>

record query_dict =
  k_data_set_id :: string
  k_query_id :: string
  k_column_names :: "string list"
  k_sort_column_name :: "string option"
  k_sort_order :: "string option"
  k_filters :: "filter_dict list"
  k_created_at :: "string option"
  k_created_by :: "string option"
  k_updated_at :: "string option"
  k_updated_by :: "string option"

text \<open>
  Zero-padded decimal of width \<open>w\<close>, and \<^verbatim>\<open>strftime('%Y-%m-%d')\<close> as the C library
  formats it: the year as it is, without padding, month and day with two digits.
\<close>

definition zero_pad :: "nat \<Rightarrow> nat \<Rightarrow> string" where
  "zero_pad w n = replicate (w - length (str_nat n)) (CHR ''0'') @ str_nat n"

definition strftime_ymd :: "datetime \<Rightarrow> string" where
  "strftime_ymd t = str_nat (year t) @ ''-'' @ zero_pad 2 (month t) @ ''-'' @ zero_pad 2 (day t)"

text \<open>
  \<^verbatim>\<open>t.strftime('%Y-%m-%d') if t else None\<close>: a non-empty string is truthy and has no
  \<^verbatim>\<open>strftime\<close>.
\<close>

fun timestamp_to_dict :: "timestamp \<Rightarrow> error + string option" where
  "timestamp_to_dict TNone = Inr None"
| "timestamp_to_dict (TDatetime t) = Inr (Some (strftime_ymd t))"
| "timestamp_to_dict (TStr s) = (if s = [] then Inr None else Inl AttributeError)"

definition Query_to_dict :: "Query \<Rightarrow> error + query_dict" where
  "Query_to_dict q =
     (case timestamp_to_dict (created_at q) of
        Inl e \<Rightarrow> Inl e
      | Inr c \<Rightarrow>
          (case timestamp_to_dict (updated_at q) of
             Inl e \<Rightarrow> Inl e
           | Inr u \<Rightarrow>
               Inr \<lparr>k_data_set_id = id' (data_set q),
                    k_query_id = query_id q,
                    k_column_names = column_names q,
                    k_sort_column_name = sort_column_name q,
                    k_sort_order = sort_order q,
                    k_filters = map Filter_to_dict (filters q),
                    k_created_at = c,
                    k_created_by = created_by q,
                    k_updated_at = u,
                    k_updated_by = updated_by q\<rparr>))"

fun timestamp_of_dict :: "string option \<Rightarrow> timestamp" where
  "timestamp_of_dict None = TNone"
| "timestamp_of_dict (Some s) = TStr s"

text \<open>\<^verbatim>\<open>Query.from_dict\<close>: the dictionary's entries become the keyword arguments.\<close>

definition Query_from_dict :: "text_library \<Rightarrow> DataSet list \<Rightarrow> query_dict \<Rightarrow> error + Query" where
  "Query_from_dict lib dss d =
     Query_init lib dss (k_data_set_id d) (Some (k_query_id d)) (Some (k_column_names d))
       (k_sort_column_name d) (k_sort_order d) (Some (map Filter_from_dict (k_filters d)))
       (timestamp_of_dict (k_created_at d)) (k_created_by d)
       (timestamp_of_dict (k_updated_at d)) (k_updated_by d)"

subsection \<open>Compilation to SQL\<close>

text \<open>\<^verbatim>\<open>Query.filters_to_sql\<close>\<close>

definition filters_to_sql :: "Query \<Rightarrow> error + string" where
  "filters_to_sql q =
     (if filters q \<noteq> [] then
        (case sequence (map (filter_to_sql (data_set q)) (filters q)) of
           Inl e \<Rightarrow> Inl e
         | Inr parts \<Rightarrow> Inr (''WHERE '' @ join ''\<newline>  AND '' parts @ ''\<newline>''))
      else Inr [])"

text \<open>The padlock sign U+1F512 that stands for a redacted column, as UTF-8 bytes.\<close>

definition lock_sign :: string where
  "lock_sign = [CHR 0xF0, CHR 0x9F, CHR 0x94, CHR 0x92]"

text \<open>One pass of the loop over \<^verbatim>\<open>self.column_names\<close> in \<^verbatim>\<open>Query.to_sql\<close>.\<close>

definition select_column :: "DataSet \<Rightarrow> string \<Rightarrow> bool \<Rightarrow> string \<Rightarrow> error + string" where
  "select_column ds decimal_mark include_personal_data name =
     (let db = database_alias ds in
      if \<not> include_personal_data \<and> name \<in> set (personal_data_column_names ds) then
        Inr (quote_identifier db lock_sign @ '' AS '' @ quote_identifier db name)
      else
        (case map_of (columns ds) name of
           None \<Rightarrow> Inl KeyError
         | Some col \<Rightarrow>
             if type' col = ''number'' \<and> decimal_mark = '','' then
               Inr (''REPLACE('' @ sq @ sq @ '' || '' @ quote_identifier db name
                    @ '', '.', ',') AS '' @ quote_identifier db name)
             else Inr (quote_identifier db name)))"

text \<open>The ORDER BY, LIMIT and OFFSET parts that \<^verbatim>\<open>Query.to_sql\<close> appends.\<close>

definition order_by_sql :: "Query \<Rightarrow> string" where
  "order_by_sql q =
     (case (sort_order q, sort_column_name q) of
        (Some ord, Some c) \<Rightarrow>
          if ord \<noteq> [] \<and> c \<noteq> [] then
            ''\<newline>ORDER BY '' @ quote_identifier (database_alias (data_set q)) c @ '' '' @ ord
              @ '' NULLS LAST\<newline>''
          else []
      | _ \<Rightarrow> [])"

definition limit_sql :: "int option \<Rightarrow> string" where
  "limit_sql limit = (case limit of None \<Rightarrow> [] | Some n \<Rightarrow> ''\<newline>LIMIT '' @ str_int n @ ''\<newline>'')"

definition offset_sql :: "int option \<Rightarrow> string" where
  "offset_sql offset = (case offset of None \<Rightarrow> [] | Some n \<Rightarrow> ''\<newline>OFFSET '' @ str_int n @ ''\<newline>'')"

text \<open>\<^verbatim>\<open>Query.to_sql\<close>; \<open>None\<close> when no column is selected.\<close>

definition to_sql :: "Query \<Rightarrow> int option \<Rightarrow> int option \<Rightarrow> string \<Rightarrow> bool \<Rightarrow> error + string option" where
  "to_sql q limit offset decimal_mark include_personal_data =
     (let ds = data_set q; db = database_alias ds in
      if column_names q \<noteq> [] then
        (case sequence (map (select_column ds decimal_mark include_personal_data) (column_names q)) of
           Inl e \<Rightarrow> Inl e
         | Inr cols \<Rightarrow>
             (case filters_to_sql q of
                Inl e \<Rightarrow> Inl e
              | Inr wh \<Rightarrow>
                  Inr (Some (''\<newline>SELECT '' @ join '',\<newline>       '' cols @ ''\<newline>FROM ''
                    @ quote_identifier db (database_schema ds) @ ''.''
                    @ quote_identifier db (database_table ds) @ ''\<newline>'' @ wh
                    @ order_by_sql q @ limit_sql limit @ offset_sql offset))))
      else Inr None)"

subsection \<open>Row counts\<close>

text \<open>
  The query executor is a collaborator: \<^verbatim>\<open>execute_query(db, sql)\<close> answers with the rows
  (each a tuple of values) and the column names, or raises an execution error that the
  query module passes on.
\<close>

type_synonym executor = "string \<Rightarrow> string \<Rightarrow> string + (pyval list list \<times> string list)"

definition execute_query :: "executor \<Rightarrow> string \<Rightarrow> string \<Rightarrow> error + (pyval list list \<times> string list)" where
  "execute_query ex db sql = (case ex db sql of Inl msg \<Rightarrow> Inl (ExecutionError msg) | Inr r \<Rightarrow> Inr r)"

text \<open>The rows of a result as one Python value: a list of tuples.\<close>

definition rows_value :: "pyval list list \<Rightarrow> pyval" where
  "rows_value rows = PList (map PList rows)"

definition from_sql :: "DataSet \<Rightarrow> string" where
  "from_sql ds =
     quote_identifier (database_alias ds) (database_schema ds) @ ''.''
       @ quote_identifier (database_alias ds) (database_table ds)"

text \<open>\<^verbatim>\<open>Query.row_count\<close>: the result's \<^verbatim>\<open>[0][0][0]\<close>, the scalar of the first row.\<close>

definition row_count :: "executor \<Rightarrow> Query \<Rightarrow> error + pyval" where
  "row_count ex q =
     (case filters_to_sql q of
        Inl e \<Rightarrow> Inl e
      | Inr wh \<Rightarrow>
          (case execute_query ex (database_alias (data_set q))
                  (''\<newline>SELECT count(*) \<newline>FROM '' @ from_sql (data_set q) @ ''\<newline>'' @ wh @ ''\<newline>'') of
             Inl e \<Rightarrow> Inl e
           | Inr (rows, names) \<Rightarrow>
               (case py_index rows 0 of
                  Inl e \<Rightarrow> Inl e
                | Inr row \<Rightarrow> py_index row 0)))"

text \<open>\<^verbatim>\<open>Query.filter_row_count\<close>: the result's \<^verbatim>\<open>[0]\<close>, which is the rows.\<close>

definition filter_row_count :: "executor \<Rightarrow> Query \<Rightarrow> int \<Rightarrow> error + pyval" where
  "filter_row_count ex q filter_pos =
     (case py_index (filters q) filter_pos of
        Inl e \<Rightarrow> Inl e
      | Inr f \<Rightarrow>
          (case filter_to_sql (data_set q) f of
             Inl e \<Rightarrow> Inl e
           | Inr cond \<Rightarrow>
               (case execute_query ex (database_alias (data_set q))
                       (''\<newline>SELECT count(*) \<newline>FROM '' @ from_sql (data_set q) @ '' \<newline>WHERE '' @ cond) of
                  Inl e \<Rightarrow> Inl e
                | Inr (rows, names) \<Rightarrow> Inr (rows_value rows))))"

section \<open>Distributions\<close>

subsection \<open>Number distribution\<close>

text \<open>
  \<^verbatim>\<open>decimal.Decimal\<close> values are modelled by the rational numbers they denote, and the
  final \<^verbatim>\<open>float(...)\<close> conversions by the exact value. The rounding of a quotient to
  the decimal context's 28 significant digits and the rounding of a bound to binary
  floating point are not modelled: the embedding is exact for values whose quotients by
  powers of ten stay within that precision, and says nothing beyond it.

  \<^verbatim>\<open>pow(Decimal(10), exponent)\<close> for an integer exponent of either sign:
\<close>

definition pow10 :: "int \<Rightarrow> rat" where
  "pow10 e = (if 0 \<le> e then 10 ^ nat e else 1 / 10 ^ nat (- e))"

text \<open>
  \<^verbatim>\<open>math.ceil(a.log10())\<close> for a positive \<open>a\<close>: the least integer \<open>e\<close> with
  \<open>a \<le> 10\<^sup>e\<close>, found by counting up from \<open>0\<close> when \<open>a > 1\<close> and down otherwise.
\<close>

function log10_up :: "rat \<Rightarrow> nat \<Rightarrow> nat" where
  "log10_up a n = (if a \<le> 10 ^ n then n else log10_up a (Suc n))"
  by pat_completeness auto
termination
proof (relation "measure (\<lambda>(a, n). nat \<lceil>a\<rceil> - n)")
  show "wf (measure (\<lambda>(a :: rat, n). nat \<lceil>a\<rceil> - n))" by simp
next
  fix a :: rat and n :: nat
  assume "\<not> a \<le> 10 ^ n"
  then have big: "(10::rat) ^ n < a" by simp
  have "n < 10 ^ n" by (rule power_gt_expt) simp
  then have "(of_nat n :: rat) < of_nat (10 ^ n)" by (simp only: of_nat_less_iff)
  then have "of_nat n < (10::rat) ^ n" by simp
  then have "of_nat n < a" using big by (rule less_trans)
  then have "int n < \<lceil>a\<rceil>" by (simp add: less_ceiling_iff)
  then show "((a, Suc n), (a, n)) \<in> measure (\<lambda>(a, n). nat \<lceil>a\<rceil> - n)" by simp
qed

function log10_down :: "rat \<Rightarrow> nat \<Rightarrow> nat" where
  "log10_down a n = (if 0 < a \<and> a * 10 ^ Suc n \<le> 1 then log10_down a (Suc n) else n)"
  by pat_completeness auto
termination
proof (relation "measure (\<lambda>(a, n). nat \<lceil>1 / a\<rceil> - n)")
  show "wf (measure (\<lambda>(a :: rat, n). nat \<lceil>1 / a\<rceil> - n))" by simp
next
  fix a :: rat and n :: nat
  assume "0 < a \<and> a * 10 ^ Suc n \<le> 1"
  then have a: "0 < a" and "a * 10 ^ Suc n \<le> 1" by simp_all
  then have big: "(10::rat) ^ Suc n \<le> 1 / a" by (simp add: pos_le_divide_eq mult.commute)
  have "Suc n < 10 ^ Suc n" by (rule power_gt_expt) simp
  then have "(of_nat (Suc n) :: rat) < of_nat (10 ^ Suc n)" by (simp only: of_nat_less_iff)
  then have "of_nat (Suc n) < (10::rat) ^ Suc n" by (simp only: of_nat_power of_nat_numeral)
  then have "of_nat (Suc n) < 1 / a" using big by (rule less_le_trans)
  then have "int (Suc n) < \<lceil>1 / a\<rceil>" by (simp add: less_ceiling_iff)
  then show "((a, Suc n), (a, n)) \<in> measure (\<lambda>(a, n). nat \<lceil>1 / a\<rceil> - n)" by simp
qed

declare log10_up.simps [simp del] log10_down.simps [simp del]

definition ceil_log10 :: "rat \<Rightarrow> int" where
  "ceil_log10 a = (if 1 < a then int (log10_up a 0) else - int (log10_down a 0))"

text \<open>
  The starting exponent,
  \<^verbatim>\<open>math.ceil(max(abs(min).log10() if min != 0 else 0, abs(max).log10() if max != 0 else 0))\<close>;
  the ceiling of the larger logarithm is the larger of the two ceilings.
\<close>

definition start_exponent :: "rat \<Rightarrow> rat \<Rightarrow> int" where
  "start_exponent min_value max_value =
     max (if min_value \<noteq> 0 then ceil_log10 \<bar>min_value\<bar> else 0)
         (if max_value \<noteq> 0 then ceil_log10 \<bar>max_value\<bar> else 0)"

definition min_buckets :: int where
  "min_buckets = 5"

text \<open>\<^verbatim>\<open>min_\<close> and \<^verbatim>\<open>max_\<close> of one pass of the loop.\<close>

definition lower_index :: "rat \<Rightarrow> int \<Rightarrow> int" where
  "lower_index min_value exponent = \<lfloor>min_value / pow10 exponent\<rfloor>"

definition upper_index :: "rat \<Rightarrow> int \<Rightarrow> int" where
  "upper_index max_value exponent = \<lceil>max_value / pow10 exponent\<rceil>"

text \<open>
  The list \<^verbatim>\<open>buckets\<close> of index, lower and upper bound, over
  \<^verbatim>\<open>range(0, max_ - min_)\<close>.
\<close>

definition buckets :: "int \<Rightarrow> int \<Rightarrow> int \<Rightarrow> (int \<times> rat \<times> rat) list" where
  "buckets min' max' exponent =
     map (\<lambda>bucket. (bucket, of_int (min' + bucket) * pow10 exponent,
                            of_int (min' + bucket + 1) * pow10 exponent))
       [0..max' - min' - 1]"

text \<open>
  The second statement. Its \<^verbatim>\<open>CASE\<close> has one \<^verbatim>\<open>WHEN column <= bound THEN bucket\<close> per
  bucket, in order; a value beyond every bound gets \<^verbatim>\<open>NULL\<close>.
\<close>

definition whens :: "int \<Rightarrow> int \<Rightarrow> int \<Rightarrow> (int \<times> rat) list" where
  "whens min' max' exponent =
     map (\<lambda>bucket. (bucket, of_int (min' + bucket + 1) * pow10 exponent)) [0..max' - min' - 1]"

fun sql_case :: "(int \<times> rat) list \<Rightarrow> rat \<Rightarrow> int option" where
  "sql_case [] v = None"
| "sql_case ((bucket, bound) # ws) v = (if v \<le> bound then Some bucket else sql_case ws v)"

text \<open>
  The executor's answer to \<^verbatim>\<open>count(*) ... GROUP by bucket ORDER BY bucket\<close>: one row
  per bucket that occurs, in ascending order, the \<^verbatim>\<open>NULL\<close> group last.
\<close>

definition group_count :: "int option list \<Rightarrow> (int option \<times> int) list" where
  "group_count ks =
     map (\<lambda>k. (k, int (count_list ks k)))
       (map Some (sort (remdups (List.map_filter (\<lambda>k. k) ks)))
        @ (if None \<in> set ks then [None] else []))"

text \<open>
  One element of the returned list, built from a row \<^verbatim>\<open>(bucket, n)\<close>: adding
  \<^verbatim>\<open>None\<close> to \<^verbatim>\<open>min_\<close> is a type error.
\<close>

fun bucket_row :: "int \<Rightarrow> int \<Rightarrow> int option \<times> int \<Rightarrow> error + rat \<times> rat \<times> int" where
  "bucket_row min' exponent (None, n) = Inl TypeError"
| "bucket_row min' exponent (Some bucket, n) =
     Inr (of_int (min' + bucket) * pow10 exponent, of_int (min' + bucket + 1) * pow10 exponent, n)"

definition bucket_rows :: "rat list \<Rightarrow> int \<Rightarrow> int \<Rightarrow> int \<Rightarrow> error + (rat \<times> rat \<times> int) list" where
  "bucket_rows vs min' max' exponent =
     sequence (map (bucket_row min' exponent)
       (group_count (map (sql_case (whens min' max' exponent)) vs)))"

text \<open>
  The \<^verbatim>\<open>while True\<close> loop of \<^verbatim>\<open>Query.number_distribution\<close>. \<open>vs\<close> are the non-null
  values of the column in the rows that pass the filters: the executor is modelled by
  what the two statements mean over these values. \<open>None\<close> is a loop that never returns.
\<close>

partial_function (option) bucket_loop ::
  "rat list \<Rightarrow> rat \<Rightarrow> rat \<Rightarrow> int \<Rightarrow> (error + (rat \<times> rat \<times> int) list) option" where
  "bucket_loop vs min_value max_value exponent =
     (if upper_index max_value exponent - lower_index min_value exponent > min_buckets
      then Some (bucket_rows vs (lower_index min_value exponent)
                   (upper_index max_value exponent) exponent)
      else bucket_loop vs min_value max_value (exponent - 1))"

declare bucket_loop.simps [code]

text \<open>
  \<^verbatim>\<open>Query.number_distribution\<close>: the first statement answers with the least value, the
  greatest value and the number of values, all \<^verbatim>\<open>NULL\<close>-free only when there is a value.
\<close>

definition number_distribution :: "rat list \<Rightarrow> (error + (rat \<times> rat \<times> int) list) option" where
  "number_distribution vs =
     (if vs = [] then Some (Inr [])
      else
        (let min_value = Min (set vs); max_value = Max (set vs);
             number_of_values = int (length vs);
             exponent = start_exponent min_value max_value
         in if min_value = max_value then Some (Inr [(min_value, max_value, number_of_values)])
            else bucket_loop vs min_value max_value exponent))"

subsection \<open>Date distribution\<close>

text \<open>
  The keys of the dictionary \<^verbatim>\<open>resolutions\<close>, in insertion order.
\<close>

definition resolutions :: "string list" where
  "resolutions = [''year'', ''month'', ''week'', ''day'']"

text \<open>
  \<^verbatim>\<open>for resolution in ...: if ...: break\<close>; the result is the loop variable after the
  loop (\<open>None\<close> while it is unbound).
\<close>

fun for_break :: "('a \<Rightarrow> bool) \<Rightarrow> 'a list \<Rightarrow> 'a option \<Rightarrow> 'a option" where
  "for_break stop [] cur = cur"
| "for_break stop (r # rs) cur = (if stop r then Some r else for_break stop rs (Some r))"

text \<open>
  The choice of the resolution and the flooring of both ends in
  \<^verbatim>\<open>Query.date_distribution\<close>. The date library is a parameter: \<open>range_len r a b\<close> is
  \<^verbatim>\<open>len(list(arrow.Arrow.range(r, a, b)))\<close> and \<open>floor_to r a\<close> is \<^verbatim>\<open>a.floor(r)\<close>.
  The result is the resolution with the floored least and greatest value.
\<close>

definition date_resolution ::
  "(string \<Rightarrow> 'd \<Rightarrow> 'd \<Rightarrow> nat) \<Rightarrow> (string \<Rightarrow> 'd \<Rightarrow> 'd) \<Rightarrow> 'd \<Rightarrow> 'd \<Rightarrow> error + string \<times> 'd \<times> 'd" where
  "date_resolution range_len floor_to min_value max_value =
     (case for_break (\<lambda>r. int (range_len r min_value max_value) \<ge> min_buckets) resolutions None of
        None \<Rightarrow> Inl UnboundLocalError
      | Some resolution \<Rightarrow>
          Inr (resolution, floor_to resolution min_value, floor_to resolution max_value))"

section \<open>Example data\<close>

text \<open>A data set, a query on it and an executor, used to run the embedded code.\<close>

definition example_data_set :: DataSet where
  "example_data_set =
     \<lparr>id' = ''orders'', database_alias = ''dwh'', database_schema = ''shop'',
      database_table = ''orders'',
      columns = [(''name'', \<lparr>type' = ''text''\<rparr>), (''amount'', \<lparr>type' = ''number''\<rparr>),
                 (''tags'', \<lparr>type' = ''text[]''\<rparr>), (''day'', \<lparr>type' = ''date''\<rparr>)],
      default_column_names = [''name'', ''amount''],
      personal_data_column_names = [''name'']\<rparr>"

text \<open>
  The text library on ASCII text, where a word character is a letter, a digit or the
  underscore and every maximal run of other characters becomes one hyphen. It stands in
  for Python's library in the examples, whose strings are ASCII.
\<close>

definition is_word :: "char \<Rightarrow> bool" where
  "is_word c =
     (let n = (of_char c :: nat)
      in (48 \<le> n \<and> n \<le> 57) \<or> (65 \<le> n \<and> n \<le> 90) \<or> n = 95 \<or> (97 \<le> n \<and> n \<le> 122))"

definition lower_char :: "char \<Rightarrow> char" where
  "lower_char c =
     (let n = (of_char c :: nat) in if 65 \<le> n \<and> n \<le> 90 then char_of (n + 32) else c)"

function sub_nonword :: "string \<Rightarrow> string" where
  "sub_nonword [] = []"
| "sub_nonword (c # cs) =
     (if is_word c then c # sub_nonword cs
      else CHR ''-'' # sub_nonword (dropWhile (\<lambda>x. \<not> is_word x) cs))"
  by pat_completeness auto
termination
  by (relation "measure length") (auto simp: less_Suc_eq_le length_dropWhile_le)

definition ascii_text :: text_library where
  "ascii_text = \<lparr>re_sub_nonword = sub_nonword, str_lower = map lower_char\<rparr>"

definition example_query :: "string list option \<Rightarrow> string option \<Rightarrow> Filter list \<Rightarrow> timestamp \<Rightarrow> error + Query" where
  "example_query cols sort_ord fs c_at =
     Query_init ascii_text [example_data_set] ''orders'' (Some ''Big Orders'') cols (Some ''amount'')
       sort_ord (Some fs) c_at (Some ''ann'') TNone None"

definition count_executor :: "int \<Rightarrow> executor" where
  "count_executor n = (\<lambda>db sql. Inr ([[PInt n]], [''count'']))"

definition big_orders :: Query where
  "big_orders =
     \<lparr>data_set = example_data_set, data_set_id = ''orders'', query_id = ''big-orders'',
      column_names = [''name'', ''amount''], sort_column_name = Some ''amount'',
      sort_order = Some ''DESC'',
      filters = [\<lparr>column_name = ''amount'', operator = ''>'', value' = PInt 5\<rparr>],
      created_at = TNone, created_by = Some ''ann'', updated_at = TNone, updated_by = None\<rparr>"

definition new_year :: datetime where
  "new_year = \<lparr>year = 2020, month = 1, day = 2, hour = 3, minute = 4, second = 5\<rparr>"

definition dated_orders :: Query where
  "dated_orders = big_orders\<lparr>created_at := TDatetime new_year\<rparr>"

definition orders_dict :: "string option \<Rightarrow> query_dict" where
  "orders_dict c =
     \<lparr>k_data_set_id = ''orders'', k_query_id = ''big-orders'',
      k_column_names = [''name'', ''amount''], k_sort_column_name = Some ''amount'',
      k_sort_order = Some ''DESC'',
      k_filters = [\<lparr>d_column_name = ''amount'', d_operator = ''>'', d_value = PInt 5\<rparr>],
      k_created_at = c, k_created_by = Some ''ann'', k_updated_at = None, k_updated_by = None\<rparr>"

definition example_values :: "rat list" where
  "example_values = [1, 5, 9, 950, 1000]"

text \<open>
  A stand-in for the date library with dates as day numbers and periods of fixed length
  (a year of 365 days, a month of 30, a week of 7).
\<close>

definition period_days :: "string \<Rightarrow> int" where
  "period_days r =
     (if r = ''year'' then 365 else if r = ''month'' then 30 else if r = ''week'' then 7 else 1)"

definition day_range_len :: "string \<Rightarrow> int \<Rightarrow> int \<Rightarrow> nat" where
  "day_range_len r a b = (if a \<le> b then nat ((b - a) div period_days r + 1) else 0)"

definition day_floor :: "string \<Rightarrow> int \<Rightarrow> int" where
  "day_floor r a = a - a mod period_days r"

definition allowed_operators :: "string list" where
  "allowed_operators = [''='', ''!='', ''<'', ''<='', ''>'', ''>='']"

section \<open>Properties of query construction\<close>

lemma find_data_set_id: "find_data_set dss i = Inr ds \<Longrightarrow> id' ds = i \<and> ds \<in> set dss"
  by (auto simp: find_data_set_def find_Some_iff split: option.splits)

lemma Query_init_found:
  assumes "find_data_set dss dsid = Inr ds"
  shows "Query_init lib dss dsid qid cols sort_col sort_ord fs c_at c_by u_at u_by =
     Inr \<lparr>data_set = ds,
          data_set_id = dsid,
          query_id = normalize_query_id lib qid,
          column_names =
            (let cols1 = (case cols of None \<Rightarrow> [] | Some cs \<Rightarrow> cs);
                 cols2 = (if cols1 = []
                          then [c \<leftarrow> default_column_names ds. in_columns c ds] else cols1)
             in if cols2 = [] then column_keys ds else cols2),
          sort_column_name =
            (case sort_col of None \<Rightarrow> None | Some c \<Rightarrow> if in_columns c ds then Some c else None),
          sort_order = sort_ord,
          filters = [f \<leftarrow> (case fs of None \<Rightarrow> [] | Some xs \<Rightarrow> xs). in_columns (column_name f) ds],
          created_at = c_at, created_by = c_by, updated_at = u_at, updated_by = u_by\<rparr>"
  using assms by (simp add: Query_init_def Let_def)

lemma Query_init_fields:
  assumes "Query_init lib dss dsid qid cols sort_col sort_ord fs c_at c_by u_at u_by = Inr q"
  obtains ds where "find_data_set dss dsid = Inr ds"
    and "data_set q = ds"
    and "data_set_id q = dsid"
    and "query_id q = normalize_query_id lib qid"
    and "column_names q =
           (let cols1 = (case cols of None \<Rightarrow> [] | Some cs \<Rightarrow> cs);
                cols2 = (if cols1 = []
                         then [c \<leftarrow> default_column_names ds. in_columns c ds] else cols1)
            in if cols2 = [] then column_keys ds else cols2)"
    and "sort_column_name q =
           (case sort_col of None \<Rightarrow> None | Some c \<Rightarrow> if in_columns c ds then Some c else None)"
    and "sort_order q = sort_ord"
    and "filters q = [f \<leftarrow> (case fs of None \<Rightarrow> [] | Some xs \<Rightarrow> xs). in_columns (column_name f) ds]"
    and "created_at q = c_at" and "created_by q = c_by"
    and "updated_at q = u_at" and "updated_by q = u_by"
proof -
  from assms obtain ds where found: "find_data_set dss dsid = Inr ds"
    by (cases "find_data_set dss dsid") (auto simp: Query_init_def)
  from assms [unfolded Query_init_found [OF found]] have "data_set q = ds"
    and "data_set_id q = dsid"
    and "query_id q = normalize_query_id lib qid"
    and "column_names q =
           (let cols1 = (case cols of None \<Rightarrow> [] | Some cs \<Rightarrow> cs);
                cols2 = (if cols1 = []
                         then [c \<leftarrow> default_column_names ds. in_columns c ds] else cols1)
            in if cols2 = [] then column_keys ds else cols2)"
    and "sort_column_name q =
           (case sort_col of None \<Rightarrow> None | Some c \<Rightarrow> if in_columns c ds then Some c else None)"
    and "sort_order q = sort_ord"
    and "filters q = [f \<leftarrow> (case fs of None \<Rightarrow> [] | Some xs \<Rightarrow> xs). in_columns (column_name f) ds]"
    and "created_at q = c_at" and "created_by q = c_by"
    and "updated_at q = u_at" and "updated_by q = u_by"
    by auto
  with found that show thesis by blast
qed

text \<open>
  Claim C9. Every filter whose column is not a column of the data set is left out of the
  constructed query's filters, the remaining filters keep their order, and no error is
  raised: once the data set is found, construction succeeds, and the query's filters
  are exactly the given filters on schema columns, a subsequence of what was passed.
\<close>

theorem unknown_filter_columns_dropped:
  assumes "find_data_set dss dsid = Inr ds"
  shows "\<exists>q. Query_init lib dss dsid qid cols sort_col sort_ord (Some fs) c_at c_by u_at u_by = Inr q
           \<and> filters q = [f \<leftarrow> fs. in_columns (column_name f) ds]
           \<and> subseq (filters q) fs
           \<and> (\<forall>f \<in> set (filters q). in_columns (column_name f) ds)"
proof -
  have "subseq [f \<leftarrow> fs. in_columns (column_name f) ds] fs" by (rule subseq_filter_left)
  then show ?thesis by (simp add: Query_init_found [OF assms])
qed

theorem unknown_filter_columns_dropped_witness:
  "\<exists>q. example_query None (Some ''ASC'')
          [\<lparr>column_name = ''gone'', operator = ''='', value' = PList [PStr ''a'']\<rparr>,
           \<lparr>column_name = ''amount'', operator = ''>'', value' = PInt 5\<rparr>] TNone = Inr q
     \<and> filters q = [\<lparr>column_name = ''amount'', operator = ''>'', value' = PInt 5\<rparr>]"
proof -
  have found: "find_data_set [example_data_set] ''orders'' = Inr example_data_set"
    by (simp add: find_data_set_def example_data_set_def)
  have keep: "[f \<leftarrow> [\<lparr>column_name = ''gone'', operator = ''='', value' = PList [PStr ''a'']\<rparr>,
           \<lparr>column_name = ''amount'', operator = ''>'', value' = PInt 5\<rparr>]. in_columns (column_name f) example_data_set]
     = [\<lparr>column_name = ''amount'', operator = ''>'', value' = PInt 5\<rparr>]"
    by (simp add: in_columns_def example_data_set_def)
  from unknown_filter_columns_dropped [OF found, of ascii_text "Some ''Big Orders''" None "Some ''amount''" "Some ''ASC''"
     "[\<lparr>column_name = ''gone'', operator = ''='', value' = PList [PStr ''a'']\<rparr>,
           \<lparr>column_name = ''amount'', operator = ''>'', value' = PInt 5\<rparr>]" TNone "Some ''ann''" TNone None]
  show ?thesis unfolding example_query_def keep by blast
qed

text \<open>
  Claim C2. The claim says that explicitly given column names are intersected with the
  schema. The constructor stores a non-empty explicit list as it is; only the default
  column names, the sort column and the filters are checked against the schema. Here
  the name \<^verbatim>\<open>gone\<close> is no column of the data set, stays in \<^verbatim>\<open>column_names\<close>, and
  makes \<^verbatim>\<open>to_sql\<close> fail with a key error when it looks the column's type up.
\<close>

theorem explicit_column_names_kept:
  "Query_init ascii_text [example_data_set] ''orders'' (Some ''Big Orders'') (Some [''gone'', ''amount''])
       (Some ''amount'') (Some ''DESC'') None TNone (Some ''ann'') TNone None
     = Inr (big_orders\<lparr>column_names := [''gone'', ''amount''], filters := []\<rparr>)
   \<and> in_columns ''gone'' example_data_set = False
   \<and> to_sql (big_orders\<lparr>column_names := [''gone'', ''amount''], filters := []\<rparr>) None None ''.'' True
     = Inl KeyError"
  by code_simp

subsection \<open>Serialisation round trip\<close>

lemma of_char_lower:
  "(of_char (lower_char c) :: nat) =
     (if 65 \<le> (of_char c :: nat) \<and> (of_char c :: nat) \<le> 90 then of_char c + 32 else of_char c)"
  by (simp add: lower_char_def Let_def)

lemma is_word_lower: "is_word (lower_char c) = is_word c"
  unfolding is_word_def Let_def of_char_lower by auto

lemma lower_char_idem: "lower_char (lower_char c) = lower_char c"
proof -
  have "\<not> (65 \<le> (of_char (lower_char c) :: nat) \<and> (of_char (lower_char c) :: nat) \<le> 90)"
    unfolding of_char_lower by auto
  then show ?thesis unfolding lower_char_def [of "lower_char c"] Let_def by (simp only: if_False)
qed

lemma lower_char_hyphen: "lower_char (CHR ''-'') = CHR ''-''"
  by code_simp

lemma not_word_hyphen: "\<not> is_word (CHR ''-'')"
  by code_simp

lemma dropWhile_sub_nonword:
  "cs = [] \<or> is_word (hd cs) \<Longrightarrow> dropWhile (\<lambda>x. \<not> is_word x) (sub_nonword cs) = sub_nonword cs"
  by (cases cs) auto

lemma dropWhile_head: "dropWhile P xs = [] \<or> \<not> P (hd (dropWhile P xs))"
  by (metis hd_dropWhile)

lemma sub_nonword_idem: "sub_nonword (sub_nonword s) = sub_nonword s"
proof (induction s rule: sub_nonword.induct)
  case 1
  then show ?case by simp
next
  case (2 c cs)
  show ?case
  proof (cases "is_word c")
    case True
    with 2 show ?thesis by simp
  next
    case False
    let ?r = "dropWhile (\<lambda>x. \<not> is_word x) cs"
    have "?r = [] \<or> is_word (hd ?r)" using dropWhile_head [of "\<lambda>x. \<not> is_word x" cs] by simp
    then have "dropWhile (\<lambda>x. \<not> is_word x) (sub_nonword ?r) = sub_nonword ?r"
      by (rule dropWhile_sub_nonword)
    with False 2(2) show ?thesis by (simp add: not_word_hyphen)
  qed
qed

lemma sub_nonword_lower: "sub_nonword (map lower_char s) = map lower_char (sub_nonword s)"
proof (induction s rule: sub_nonword.induct)
  case 1
  then show ?case by simp
next
  case (2 c cs)
  have dw: "dropWhile (\<lambda>x. \<not> is_word x) (map lower_char cs)
            = map lower_char (dropWhile (\<lambda>x. \<not> is_word x) cs)"
    by (simp add: dropWhile_map comp_def is_word_lower)
  show ?case
  proof (cases "is_word c")
    case True
    with 2 show ?thesis by (simp add: is_word_lower)
  next
    case False
    with 2(2) show ?thesis by (simp add: is_word_lower dw lower_char_hyphen)
  qed
qed

lemma normalize_query_id_idem:
  "normalize_query_id ascii_text (Some (normalize_query_id ascii_text x))
     = normalize_query_id ascii_text x"
proof -
  have "map lower_char (sub_nonword (map lower_char (sub_nonword s))) = map lower_char (sub_nonword s)" for s
    by (simp add: sub_nonword_lower sub_nonword_idem lower_char_idem)
  then show ?thesis
    by (auto simp: normalize_query_id_def ascii_text_def split: option.splits)
qed

lemma Filter_dict_round_trip: "Filter_from_dict (Filter_to_dict f) = f"
  by (simp add: Filter_from_dict_def Filter_to_dict_def)

lemma timestamp_to_dict_Inr:
  "timestamp_to_dict t = Inr c \<Longrightarrow>
     c = (case t of TDatetime dt \<Rightarrow> Some (strftime_ymd dt) | _ \<Rightarrow> None)"
  by (cases t) (auto split: if_splits)

lemma timestamp_round_trip_iff:
  "timestamp_to_dict t = Inr c \<Longrightarrow> timestamp_of_dict c = t \<longleftrightarrow> t = TNone"
  by (cases t) (auto split: if_splits)

lemma Query_from_to_dict:
  assumes init: "Query_init lib dss dsid qid cols sort_col sort_ord fs c_at c_by u_at u_by = Inr q"
      and dict: "Query_to_dict q = Inr d"
  shows "Query_from_dict lib dss d =
           Inr (q\<lparr>query_id := normalize_query_id lib (Some (query_id q)),
                  created_at := timestamp_of_dict (k_created_at d),
                  updated_at := timestamp_of_dict (k_updated_at d)\<rparr>)"
proof -
  from init obtain ds where found: "find_data_set dss dsid = Inr ds"
    and ds: "data_set q = ds"
    and dsid: "data_set_id q = dsid"
    and cn: "column_names q =
           (let cols1 = (case cols of None \<Rightarrow> [] | Some cs \<Rightarrow> cs);
                cols2 = (if cols1 = []
                         then [c \<leftarrow> default_column_names ds. in_columns c ds] else cols1)
            in if cols2 = [] then column_keys ds else cols2)"
    and sc: "sort_column_name q =
           (case sort_col of None \<Rightarrow> None | Some c \<Rightarrow> if in_columns c ds then Some c else None)"
    and fl: "filters q = [f \<leftarrow> (case fs of None \<Rightarrow> [] | Some xs \<Rightarrow> xs). in_columns (column_name f) ds]"
    by (rule Query_init_fields)
  from dict obtain c u where
    d: "d = \<lparr>k_data_set_id = id' (data_set q), k_query_id = query_id q,
             k_column_names = column_names q, k_sort_column_name = sort_column_name q,
             k_sort_order = sort_order q, k_filters = map Filter_to_dict (filters q),
             k_created_at = c, k_created_by = created_by q,
             k_updated_at = u, k_updated_by = updated_by q\<rparr>"
    by (auto simp: Query_to_dict_def split: sum.splits)
  have id: "id' ds = dsid" using find_data_set_id [OF found] by simp
  have found': "find_data_set dss (k_data_set_id d) = Inr ds"
    using found id ds d by simp
  have cols: "(let cols1 = (case Some (column_names q) of None \<Rightarrow> [] | Some cs \<Rightarrow> cs);
                cols2 = (if cols1 = []
                         then [c \<leftarrow> default_column_names ds. in_columns c ds] else cols1)
            in if cols2 = [] then column_keys ds else cols2) = column_names q"
    unfolding cn by (simp add: Let_def)
  have sort: "(case sort_column_name q of None \<Rightarrow> None
               | Some c \<Rightarrow> if in_columns c ds then Some c else None) = sort_column_name q"
    unfolding sc by (simp split: option.splits)
  have filt: "[f \<leftarrow> (case Some (map Filter_from_dict (map Filter_to_dict (filters q))) of
                       None \<Rightarrow> [] | Some xs \<Rightarrow> xs). in_columns (column_name f) ds] = filters q"
    unfolding fl by (simp add: comp_def Filter_dict_round_trip)
  have "Query_from_dict lib dss d =
          Inr \<lparr>data_set = ds, data_set_id = dsid,
               query_id = normalize_query_id lib (Some (query_id q)),
               column_names = column_names q, sort_column_name = sort_column_name q,
               sort_order = sort_order q, filters = filters q,
               created_at = timestamp_of_dict c, created_by = created_by q,
               updated_at = timestamp_of_dict u, updated_by = updated_by q\<rparr>"
    unfolding Query_from_dict_def Query_init_found [OF found']
    using cols sort filt id ds by (simp add: d)
  also have "\<lparr>data_set = ds, data_set_id = dsid,
               query_id = normalize_query_id lib (Some (query_id q)),
               column_names = column_names q, sort_column_name = sort_column_name q,
               sort_order = sort_order q, filters = filters q,
               created_at = timestamp_of_dict c, created_by = created_by q,
               updated_at = timestamp_of_dict u, updated_by = updated_by q\<rparr>
        = q\<lparr>query_id := normalize_query_id lib (Some (query_id q)),
             created_at := timestamp_of_dict (k_created_at d),
             updated_at := timestamp_of_dict (k_updated_at d)\<rparr>"
    using ds dsid by (intro Query.equality) (simp_all add: d)
  finally show ?thesis .
qed

text \<open>
  Claim C4. The claim says that \<^verbatim>\<open>from_dict\<close> after \<^verbatim>\<open>to_dict\<close> gives the query back in
  every field. \<^verbatim>\<open>to_dict\<close> writes a time stamp as its \<^verbatim>\<open>%Y-%m-%d\<close> string and
  \<^verbatim>\<open>from_dict\<close> passes that string on without parsing it; and the constructor
  normalises the query id once more. So, whenever \<^verbatim>\<open>to_dict\<close> succeeds on a
  constructed query, the round trip restores every field but three: \<^verbatim>\<open>query_id\<close> is
  the normalisation of the stored id, and \<^verbatim>\<open>created_at\<close> and \<^verbatim>\<open>updated_at\<close> hold what
  the dictionary holds, the date string for a \<^verbatim>\<open>datetime\<close> and \<^verbatim>\<open>None\<close> otherwise. The
  round trip is the identity exactly when the normalisation leaves the stored id as it
  is and both time stamps are \<^verbatim>\<open>None\<close>.
\<close>

theorem query_dict_round_trip:
  assumes "Query_init lib dss dsid qid cols sort_col sort_ord fs c_at c_by u_at u_by = Inr q"
      and "Query_to_dict q = Inr d"
  shows "Query_from_dict lib dss d =
           Inr (q\<lparr>query_id := normalize_query_id lib (Some (query_id q)),
                  created_at := timestamp_of_dict (k_created_at d),
                  updated_at := timestamp_of_dict (k_updated_at d)\<rparr>)
     \<and> k_created_at d = (case created_at q of TDatetime t \<Rightarrow> Some (strftime_ymd t) | _ \<Rightarrow> None)
     \<and> k_updated_at d = (case updated_at q of TDatetime t \<Rightarrow> Some (strftime_ymd t) | _ \<Rightarrow> None)
     \<and> (Query_from_dict lib dss d = Inr q \<longleftrightarrow>
          normalize_query_id lib (Some (query_id q)) = query_id q
          \<and> created_at q = TNone \<and> updated_at q = TNone)"
proof -
  from assms(2) obtain c u where c: "timestamp_to_dict (created_at q) = Inr c"
    and u: "timestamp_to_dict (updated_at q) = Inr u"
    and kc: "k_created_at d = c" and ku: "k_updated_at d = u"
    by (auto simp: Query_to_dict_def split: sum.splits)
  let ?n = "normalize_query_id lib (Some (query_id q))"
  have rt: "Query_from_dict lib dss d =
           Inr (q\<lparr>query_id := ?n, created_at := timestamp_of_dict c,
                  updated_at := timestamp_of_dict u\<rparr>)"
    using Query_from_to_dict [OF assms] unfolding kc ku .
  have "q\<lparr>query_id := ?n, created_at := timestamp_of_dict c, updated_at := timestamp_of_dict u\<rparr> = q
          \<longleftrightarrow> ?n = query_id q \<and> timestamp_of_dict c = created_at q
              \<and> timestamp_of_dict u = updated_at q"
    by (cases q) auto
  then have "Query_from_dict lib dss d = Inr q \<longleftrightarrow>
      ?n = query_id q \<and> created_at q = TNone \<and> updated_at q = TNone"
    unfolding rt using timestamp_round_trip_iff [OF c] timestamp_round_trip_iff [OF u] by simp
  then show ?thesis
    using rt timestamp_to_dict_Inr [OF c] timestamp_to_dict_Inr [OF u] kc ku by simp
qed

text \<open>
  The theorem at the example query, whose id is ASCII and whose time stamps are
  \<^verbatim>\<open>None\<close>.
\<close>

theorem query_dict_round_trip_witness:
  "Query_to_dict big_orders = Inr (orders_dict None)
     \<and> Query_from_dict ascii_text [example_data_set] (orders_dict None) = Inr big_orders"
proof -
  have init: "Query_init ascii_text [example_data_set] ''orders'' (Some ''Big Orders'') None
       (Some ''amount'') (Some ''DESC'')
       (Some [\<lparr>column_name = ''amount'', operator = ''>'', value' = PInt 5\<rparr>])
       TNone (Some ''ann'') TNone None = Inr big_orders"
    by code_simp
  have dict: "Query_to_dict big_orders = Inr (orders_dict None)"
    by code_simp
  have none: "created_at big_orders = TNone \<and> updated_at big_orders = TNone"
    by (simp add: big_orders_def)
  have same: "normalize_query_id ascii_text (Some (query_id big_orders)) = query_id big_orders"
    by code_simp
  from query_dict_round_trip [OF init dict] none same dict show ?thesis by simp
qed

text \<open>
  With a \<^verbatim>\<open>datetime\<close> as \<^verbatim>\<open>created_at\<close> the round trip gives a query whose
  \<^verbatim>\<open>created_at\<close> is the string \<^verbatim>\<open>2020-01-02\<close>, not the query it started from.
\<close>

theorem query_dict_round_trip_counterexample:
  "example_query None (Some ''DESC'')
       [\<lparr>column_name = ''amount'', operator = ''>'', value' = PInt 5\<rparr>] (TDatetime new_year)
     = Inr dated_orders
   \<and> Query_to_dict dated_orders = Inr (orders_dict (Some ''2020-01-02''))
   \<and> Query_from_dict ascii_text [example_data_set] (orders_dict (Some ''2020-01-02''))
     = Inr (dated_orders\<lparr>created_at := TStr ''2020-01-02''\<rparr>)
   \<and> Query_from_dict ascii_text [example_data_set] (orders_dict (Some ''2020-01-02'')) \<noteq> Inr dated_orders"
  by code_simp

section \<open>Properties of the SQL compiler\<close>

lemma sequence_Inl:
  "sequence rs = Inl e \<Longrightarrow> Inl e \<in> set rs"
  by (induction rs rule: sequence.induct) (auto split: sum.splits)

lemma sequence_map_Inr:
  "(\<And>x. x \<in> set xs \<Longrightarrow> f x = Inr (g x)) \<Longrightarrow> sequence (map f xs) = Inr (map g xs)"
  by (induction xs) auto

lemma py_iter_errors: "py_iter v = Inl e \<Longrightarrow> e = TypeError"
  by (cases v) auto

lemma filter_to_sql_errors:
  assumes "filter_to_sql ds f = Inl e"
  shows "e = KeyError \<or> e = TypeError"
proof (cases "map_of (columns ds) (column_name f)")
  case None
  with assms show ?thesis by (simp add: filter_to_sql_def)
next
  case (Some col)
  show ?thesis
  proof (cases "py_iter (value_or_empty (value' f))")
    case (Inl e')
    then have "e' = TypeError" by (rule py_iter_errors)
    with assms Some Inl show ?thesis
      by (simp add: filter_to_sql_def Let_def split: if_splits)
  next
    case (Inr vs)
    with assms Some show ?thesis
      by (simp add: filter_to_sql_def Let_def split: if_splits)
  qed
qed

lemma execute_query_errors:
  "execute_query ex db sql = Inl e \<Longrightarrow> \<exists>msg. e = ExecutionError msg"
  by (auto simp: execute_query_def split: sum.splits)

lemma py_index_IndexError_iff:
  "py_index xs i = Inl e \<longleftrightarrow> e = IndexError \<and> \<not> (- int (length xs) \<le> i \<and> i < int (length xs))"
  by (auto simp: py_index_def)

lemma filter_row_count_IndexError_iff:
  "filter_row_count ex q i = Inl IndexError
     \<longleftrightarrow> \<not> (- int (length (filters q)) \<le> i \<and> i < int (length (filters q)))"
proof (cases "py_index (filters q) i")
  case (Inl e)
  then show ?thesis using py_index_IndexError_iff [of "filters q" i e]
    by (simp add: filter_row_count_def)
next
  case (Inr f)
  have valid: "- int (length (filters q)) \<le> i \<and> i < int (length (filters q))"
  proof (rule ccontr)
    assume "\<not> ?thesis"
    then have "py_index (filters q) i = Inl IndexError" by (auto simp: py_index_def)
    with Inr show False by simp
  qed
  have "filter_row_count ex q i \<noteq> Inl IndexError"
    using Inr filter_to_sql_errors [of "data_set q" f IndexError]
      execute_query_errors [of ex _ _ IndexError]
    by (auto simp: filter_row_count_def split: sum.splits)
  with valid show ?thesis by simp
qed

text \<open>
  Claim C1. The claim says that every text value in the fragment went through the
  literal-quoting function. Only the \<^verbatim>\<open>~\<close> branch quotes; the \<^verbatim>\<open>IN\<close> and
  \<^verbatim>\<open>NOT IN\<close> branch, the text-array branch and the date branch put the value between
  single quotes as it is. For the value \<^verbatim>\<open>x' OR '1'='1\<close> the three unquoted branches
  give a fragment in which the value's own quotes end and reopen the literal, while the
  \<^verbatim>\<open>~\<close> branch doubles them.
\<close>

theorem text_values_interpolated_unescaped:
  "filter_to_sql example_data_set
       \<lparr>column_name = ''name'', operator = ''='', value' = PList [PStr ''x' OR '1'='1'']\<rparr>
     = Inr (dq @ ''name'' @ dq @ '' IN ('x' OR '1'='1'' @ sq @ '')'')
   \<and> filter_to_sql example_data_set
       \<lparr>column_name = ''name'', operator = ''~'', value' = PList [PStr ''x' OR '1'='1'']\<rparr>
     = Inr (''(lower('' @ dq @ ''name'' @ dq @ '') LIKE concat('%', 'x'' @ sq @ sq @ '' OR ''
            @ sq @ sq @ ''1'' @ sq @ sq @ ''='' @ sq @ sq @ ''1'' @ sq @ '', '%'))'')
   \<and> filter_to_sql example_data_set
       \<lparr>column_name = ''tags'', operator = ''='', value' = PList [PStr ''x' OR '1'='1'']\<rparr>
     = Inr (dq @ ''tags'' @ dq @ '' && ARRAY['x' OR '1'='1'' @ sq @ '']::TEXT[]'')
   \<and> filter_to_sql example_data_set
       \<lparr>column_name = ''day'', operator = ''>='', value' = PStr ''x' OR '1'='1''\<rparr>
     = Inr (dq @ ''day'' @ dq @ '' >= 'x' OR '1'='1'' @ sq @ '' '')"
  by code_simp

text \<open>
  Claim C5. The claim says that only the six comparison operators reach the fragment of
  a filter on a number column. The code has no such check: the operator is interpolated
  as it is, whatever string it holds.
\<close>

theorem number_filter_operator_verbatim:
  assumes "map_of (columns ds) (column_name f) = Some col" and "type' col = ''number''"
  shows "filter_to_sql ds f =
           Inr (quote_identifier (database_alias ds) (column_name f) @ '' '' @ operator f @ '' ''
                @ py_str (value' f))"
  using assms by (simp add: filter_to_sql_def Let_def)

text \<open>The theorem at a filter on the number column of the example data set.\<close>

theorem number_filter_operator_verbatim_witness:
  "filter_to_sql example_data_set \<lparr>column_name = ''amount'', operator = ''>='', value' = PInt 100\<rparr>
     = Inr (dq @ ''amount'' @ dq @ '' >= 100'')"
proof -
  have "map_of (columns example_data_set) (column_name \<lparr>column_name = ''amount'', operator = ''>='', value' = PInt 100\<rparr>)
          = Some \<lparr>type' = ''number''\<rparr>"
    by (simp add: example_data_set_def)
  from number_filter_operator_verbatim [OF this]
  show ?thesis by (simp add: quote_identifier_def replace_char_def example_data_set_def str_int_def str_nat.simps digit_def)
qed

text \<open>An operator outside the six comparison operators is compiled all the same.\<close>

theorem number_filter_operator_counterexample:
  "filter_to_sql example_data_set
       \<lparr>column_name = ''amount'', operator = ''IS NOT NULL OR'', value' = PInt 1\<rparr>
     = Inr (dq @ ''amount'' @ dq @ '' IS NOT NULL OR 1'')
   \<and> ''IS NOT NULL OR'' \<notin> set allowed_operators"
  by code_simp

text \<open>
  Claim C3. The claim says that \<^verbatim>\<open>filter_row_count\<close> returns the scalar count at a valid
  position. It returns the executor's rows, a list holding one tuple with the count,
  where \<^verbatim>\<open>row_count\<close> takes the scalar out of the first row. Position \<open>- 1\<close> is
  valid in Python and selects the last filter; position \<open>1\<close> of a single filter raises
  the index error.
\<close>

theorem filter_row_count_returns_rows:
  "example_query None (Some ''DESC'') [\<lparr>column_name = ''amount'', operator = ''>'', value' = PInt 5\<rparr>] TNone
     = Inr big_orders
   \<and> filter_row_count (count_executor 42) big_orders 0 = Inr (PList [PList [PInt 42]])
   \<and> row_count (count_executor 42) big_orders = Inr (PInt 42)
   \<and> filter_row_count (count_executor 42) big_orders (- 1) = Inr (PList [PList [PInt 42]])
   \<and> filter_row_count (count_executor 42) big_orders 1 = Inl IndexError"
  by code_simp






section \<open>Properties of the number distribution\<close>

subsection \<open>The starting exponent\<close>

text \<open>
  \<open>ceil_log10\<close> is the ceiling of the decimal logarithm, so \<open>start_exponent\<close> is the
  expression of the source.
\<close>

lemma pow10_powi: "pow10 e = 10 powi e"
  by (simp add: pow10_def power_int_def power_inverse [symmetric] inverse_eq_divide power_one_over)

lemma pow10_pos: "0 < pow10 e"
  by (simp add: pow10_powi)

lemma pow10_diff: "pow10 (e - int k) = pow10 e / 10 ^ k"
  by (simp add: pow10_powi power_int_diff)

lemma of_nat_less_pow10: "(of_nat n :: rat) < 10 ^ n"
proof -
  have "n < 10 ^ n" by (rule power_gt_expt) simp
  then have "(of_nat n :: rat) < of_nat (10 ^ n)" by (simp only: of_nat_less_iff)
  then show ?thesis by simp
qed

lemma log10_up_spec:
  assumes "\<And>m. m < n \<Longrightarrow> 10 ^ m < a"
  shows "a \<le> 10 ^ log10_up a n \<and> (\<forall>m < log10_up a n. 10 ^ m < a)"
  using assms
proof (induction a n rule: log10_up.induct)
  case (1 a n)
  show ?case
  proof (cases "a \<le> 10 ^ n")
    case True
    then show ?thesis using 1(2) by (subst (1 2) log10_up.simps) simp
  next
    case False
    have "\<And>m. m < Suc n \<Longrightarrow> 10 ^ m < a" using 1(2) False by (auto simp: less_Suc_eq)
    from 1(1) [OF False this] False show ?thesis by (subst (1 2) log10_up.simps) simp
  qed
qed

lemma log10_down_spec:
  assumes "0 < a" and "a * 10 ^ n \<le> 1"
  shows "a * 10 ^ log10_down a n \<le> 1 \<and> 1 < a * 10 ^ Suc (log10_down a n)"
  using assms
proof (induction a n rule: log10_down.induct)
  case (1 a n)
  show ?case
  proof (cases "a * 10 ^ Suc n \<le> 1")
    case True
    with 1(2) have c: "0 < a \<and> a * 10 ^ Suc n \<le> 1" by simp
    from 1(1) [OF c 1(2) True] c show ?thesis by (subst (1 2) log10_down.simps) simp
  next
    case False
    then show ?thesis using 1(3) by (subst (1 2) log10_down.simps) simp
  qed
qed

lemma ceil_log10_spec:
  assumes "0 < a"
  shows "pow10 (ceil_log10 a - 1) < a \<and> a \<le> pow10 (ceil_log10 a)"
proof (cases "1 < a")
  case True
  let ?n = "log10_up a 0"
  from log10_up_spec [of 0 a] have up: "a \<le> 10 ^ ?n" and below: "\<forall>m < ?n. 10 ^ m < a" by simp_all
  from True up have "?n \<noteq> 0" by (intro notI) simp
  then obtain m where m: "?n = Suc m" by (cases ?n) simp_all
  with below have "10 ^ m < a" by simp
  moreover have "nat (1 + int m) = Suc m" by simp
  ultimately show ?thesis using up True m by (simp add: ceil_log10_def pow10_def)
next
  case False
  let ?n = "log10_down a 0"
  from False have "a * 10 ^ 0 \<le> 1" by simp
  from log10_down_spec [OF assms this]
  have le: "a * 10 ^ ?n \<le> 1" and gt: "1 < a * 10 ^ Suc ?n" by simp_all
  have "pow10 (- int ?n) = 1 / 10 ^ ?n" by (simp add: pow10_def)
  moreover have "pow10 (- int ?n - 1) = 1 / 10 ^ Suc ?n"
  proof -
    have "nat (1 + int ?n) = Suc ?n" by simp
    then show ?thesis by (simp add: pow10_def)
  qed
  moreover have "a \<le> 1 / 10 ^ ?n" using le by (simp add: pos_le_divide_eq)
  moreover have "1 / 10 ^ Suc ?n < a" using gt by (simp add: pos_divide_less_eq)
  ultimately show ?thesis using False by (simp add: ceil_log10_def)
qed

lemma ceil_log10_log:
  assumes "0 < a"
  shows "ceil_log10 a = \<lceil>log 10 (real_of_rat a)\<rceil>"
proof -
  let ?c = "ceil_log10 a"
  from ceil_log10_spec [OF assms] have lo: "pow10 (?c - 1) < a" and hi: "a \<le> pow10 ?c" by simp_all
  have pr: "real_of_rat (pow10 e) = 10 powr (of_int e)" for e
    by (simp add: pow10_def powr_int of_rat_divide of_rat_power)
  have a: "0 < real_of_rat a" using assms by simp
  from lo have "10 powr (of_int (?c - 1)) < real_of_rat a"
    unfolding pr [symmetric] by (simp add: of_rat_less)
  then have l: "of_int (?c - 1) < log 10 (real_of_rat a)" using a by (simp add: powr_less_iff)
  from hi have "real_of_rat a \<le> 10 powr (of_int ?c)"
    unfolding pr [symmetric] by (simp add: of_rat_less_eq)
  then have h: "log 10 (real_of_rat a) \<le> of_int ?c" using a by (simp add: le_powr_iff)
  from l h have "\<lceil>log 10 (real_of_rat a)\<rceil> = ?c" by (intro ceiling_unique) simp_all
  then show ?thesis by simp
qed

lemma start_exponent_log:
  "start_exponent min_value max_value =
     \<lceil>max (if min_value \<noteq> 0 then log 10 \<bar>real_of_rat min_value\<bar> else 0)
          (if max_value \<noteq> 0 then log 10 \<bar>real_of_rat max_value\<bar> else 0)\<rceil>"
proof -
  have c: "(if x \<noteq> 0 then ceil_log10 \<bar>x\<bar> else 0)
             = \<lceil>if x \<noteq> 0 then log 10 \<bar>real_of_rat x\<bar> else 0\<rceil>" for x :: rat
    by (simp add: ceil_log10_log)
  have "max \<lceil>a\<rceil> \<lceil>b\<rceil> = \<lceil>max a b\<rceil>" for a b :: real
  proof (cases "a \<le> b")
    case True
    then have "\<lceil>a\<rceil> \<le> \<lceil>b\<rceil>" by (rule ceiling_mono)
    with True show ?thesis by (simp add: max.absorb2)
  next
    case False
    then have "b \<le> a" by simp
    then have "\<lceil>b\<rceil> \<le> \<lceil>a\<rceil>" by (rule ceiling_mono)
    with \<open>b \<le> a\<close> show ?thesis by (simp add: max.absorb1)
  qed
  then show ?thesis unfolding start_exponent_def c by simp
qed

subsection \<open>The loop\<close>

lemma index_gap:
  "of_int (upper_index mx e - lower_index mn e) \<ge> (mx - mn) / pow10 e"
proof -
  have "mx / pow10 e \<le> of_int (upper_index mx e)" by (simp add: upper_index_def)
  moreover have "of_int (lower_index mn e) \<le> mn / pow10 e" by (simp add: lower_index_def)
  ultimately show ?thesis by (simp add: diff_divide_distrib)
qed

lemma enough_buckets_eventually:
  assumes "mn < mx"
  shows "\<exists>k::nat. min_buckets < upper_index mx (e - int k) - lower_index mn (e - int k)"
proof -
  from assms have w: "0 < mx - mn" by simp
  obtain n :: nat where n: "5 * pow10 e / (mx - mn) < of_nat n"
    using reals_Archimedean2 by blast
  also have "of_nat n < (10::rat) ^ n" by (rule of_nat_less_pow10)
  finally have "5 * pow10 e < (mx - mn) * 10 ^ n"
    using w by (simp add: pos_divide_less_eq mult.commute)
  then have "5 < (mx - mn) * 10 ^ n / pow10 e"
    using pow10_pos [of e] by (simp add: pos_less_divide_eq)
  then have "5 < (mx - mn) / pow10 (e - int n)"
    by (simp add: pow10_diff)
  also have "\<dots> \<le> of_int (upper_index mx (e - int n) - lower_index mn (e - int n))"
    by (rule index_gap)
  finally have "5 < upper_index mx (e - int n) - lower_index mn (e - int n)"
    by (metis of_int_less_iff of_int_numeral)
  then show ?thesis unfolding min_buckets_def by blast
qed

lemma bucket_loop_steps:
  assumes "min_buckets < upper_index mx (e - int k) - lower_index mn (e - int k)"
      and "\<And>j. j < k \<Longrightarrow> \<not> min_buckets < upper_index mx (e - int j) - lower_index mn (e - int j)"
  shows "bucket_loop vs mn mx e =
           Some (bucket_rows vs (lower_index mn (e - int k)) (upper_index mx (e - int k)) (e - int k))"
  using assms
proof (induction k arbitrary: e)
  case 0
  then show ?case by (subst bucket_loop.simps) simp
next
  case (Suc k)
  from Suc.prems(2) [of 0] have "\<not> min_buckets < upper_index mx e - lower_index mn e" by simp
  then have "bucket_loop vs mn mx e = bucket_loop vs mn mx (e - 1)"
    by (subst bucket_loop.simps) simp
  moreover have "bucket_loop vs mn mx (e - 1) =
      Some (bucket_rows vs (lower_index mn (e - 1 - int k)) (upper_index mx (e - 1 - int k)) (e - 1 - int k))"
  proof (rule Suc.IH)
    show "min_buckets < upper_index mx (e - 1 - int k) - lower_index mn (e - 1 - int k)"
      using Suc.prems(1) by (simp add: algebra_simps)
  next
    fix j assume "j < k"
    then have "\<not> min_buckets < upper_index mx (e - int (Suc j)) - lower_index mn (e - int (Suc j))"
      using Suc.prems(2) [of "Suc j"] by simp
    then show "\<not> min_buckets < upper_index mx (e - 1 - int j) - lower_index mn (e - 1 - int j)"
      by (simp add: algebra_simps)
  qed
  ultimately show ?case by (simp add: algebra_simps)
qed

lemma bucket_loop_result:
  assumes "mn < mx"
  shows "\<exists>k::nat. min_buckets < upper_index mx (e - int k) - lower_index mn (e - int k)
     \<and> (\<forall>j<k. \<not> min_buckets < upper_index mx (e - int j) - lower_index mn (e - int j))
     \<and> bucket_loop vs mn mx e =
           Some (bucket_rows vs (lower_index mn (e - int k)) (upper_index mx (e - int k)) (e - int k))"
proof -
  let ?P = "\<lambda>k::nat. min_buckets < upper_index mx (e - int k) - lower_index mn (e - int k)"
  from enough_buckets_eventually [OF assms, of e] have "\<exists>k. ?P k" .
  then obtain k where k: "?P k" and least: "\<forall>j<k. \<not> ?P j"
    unfolding exists_least_iff [of ?P] by blast
  from bucket_loop_steps [of mx e k mn vs] k least show ?thesis by blast
qed

lemma no_gap_without_spread:
  assumes "mx \<le> mn"
  shows "\<not> min_buckets < upper_index mx e - lower_index mn e"
proof -
  have "mx / pow10 e \<le> mn / pow10 e"
    using assms pow10_pos [of e] by (simp add: divide_right_mono)
  then have "\<lceil>mx / pow10 e\<rceil> \<le> \<lceil>mn / pow10 e\<rceil>" by (rule ceiling_mono)
  also have "\<dots> \<le> \<lfloor>mn / pow10 e\<rfloor> + 1"
    using ceiling_diff_floor_le_1 [of "mn / pow10 e"] by simp
  finally show ?thesis by (simp add: upper_index_def lower_index_def min_buckets_def)
qed

lemma bucket_loop_Some_spread:
  assumes "bucket_loop vs mn mx e = Some r"
  shows "mn < mx"
proof (rule bucket_loop.raw_induct [where P = "\<lambda>vs mn mx e r. mn < mx", OF _ assms])
  fix f :: "rat list \<Rightarrow> rat \<Rightarrow> rat \<Rightarrow> int \<Rightarrow> (error + (rat \<times> rat \<times> int) list) option"
  fix vs mn mx e r
  assume IH: "\<And>vs mn mx e r. f vs mn mx e = Some r \<Longrightarrow> mn < mx"
  assume body: "(if min_buckets < upper_index mx e - lower_index mn e
      then Some (bucket_rows vs (lower_index mn e) (upper_index mx e) e)
      else f vs mn mx (e - 1)) = Some r"
  show "mn < mx"
  proof (rule ccontr)
    assume "\<not> mn < mx"
    then have le: "mx \<le> mn" by simp
    from no_gap_without_spread [OF le, of e] body have "f vs mn mx (e - 1) = Some r" by simp
    from IH [OF this] le show False by simp
  qed
qed

lemma bucket_loop_diverges:
  "max_value \<le> min_value \<Longrightarrow> bucket_loop vs min_value max_value exponent = None"
  using bucket_loop_Some_spread [of vs min_value max_value exponent]
  by (cases "bucket_loop vs min_value max_value exponent") auto

text \<open>
  Claim C8. For \<open>min_value < max_value\<close> the loop returns: counting down from the
  starting exponent, after finitely many steps \<open>k\<close> it reaches an exponent at which
  \<open>ceil(max / 10\<^sup>e) - floor(min / 10\<^sup>e)\<close> exceeds \<open>5\<close>. (Without
  \<open>min_value < max_value\<close> it never does, see \<open>bucket_loop_diverges\<close>; the source
  returns before the loop when both are equal.)
\<close>

theorem bucket_loop_terminates:
  assumes "min_value < max_value"
  shows "let s = start_exponent min_value max_value in
     \<exists>k::nat.
       5 < upper_index max_value (s - int k) - lower_index min_value (s - int k)
       \<and> bucket_loop vs min_value max_value s =
            Some (bucket_rows vs (lower_index min_value (s - int k))
                    (upper_index max_value (s - int k)) (s - int k))"
  using bucket_loop_result [OF assms, of "start_exponent min_value max_value" vs]
  unfolding min_buckets_def Let_def by blast

text \<open>
  The theorem at the values \<open>1\<close> and \<open>1000\<close>, where the loop starts at exponent \<open>3\<close>
  and returns at exponent \<open>2\<close>.
\<close>

theorem bucket_loop_terminates_witness:
  "(1::rat) < 1000
     \<and> (\<exists>k::nat. 5 < upper_index 1000 (3 - int k) - lower_index 1 (3 - int k)
           \<and> bucket_loop example_values 1 1000 3 =
                Some (bucket_rows example_values (lower_index 1 (3 - int k))
                        (upper_index 1000 (3 - int k)) (3 - int k)))
     \<and> bucket_loop example_values 1 1000 3 = Some (Inr [(0, 100, 3), (900, 1000, 2)])"
proof -
  have lt: "(1::rat) < 1000" by simp
  have se: "start_exponent 1 1000 = 3" by code_simp
  have ev: "bucket_loop example_values 1 1000 3 = Some (Inr [(0, 100, 3), (900, 1000, 2)])"
    unfolding example_values_def by code_simp
  from bucket_loop_terminates [OF lt, of example_values]
  have "\<exists>k::nat. 5 < upper_index 1000 (3 - int k) - lower_index 1 (3 - int k)
           \<and> bucket_loop example_values 1 1000 3 =
                Some (bucket_rows example_values (lower_index 1 (3 - int k))
                        (upper_index 1000 (3 - int k)) (3 - int k))"
    unfolding se Let_def .
  with lt ev show ?thesis by blast
qed

subsection \<open>The buckets\<close>

lemma sql_case_Some: "sql_case ws v = Some b \<Longrightarrow> b \<in> fst ` set ws"
  by (induction ws v rule: sql_case.induct) (auto split: if_splits)

lemma sql_case_None: "sql_case ws v = None \<Longrightarrow> (b, bound) \<in> set ws \<Longrightarrow> bound < v"
  by (induction ws v rule: sql_case.induct) (auto split: if_splits)

lemma whens_keys: "fst ` set (whens min' max' e) = {0..max' - min' - 1}"
  by (auto simp: whens_def image_iff)

lemma upper_bound_covers: "mx \<le> of_int (upper_index mx e) * pow10 e"
proof -
  have "mx / pow10 e \<le> of_int (upper_index mx e)" by (simp add: upper_index_def)
  then show ?thesis using pow10_pos [of e] by (simp add: pos_divide_le_eq)
qed

lemma sql_case_in_range:
  assumes "v \<le> mx" and "min' < upper_index mx e"
  shows "\<exists>b. sql_case (whens min' (upper_index mx e) e) v = Some b
            \<and> 0 \<le> b \<and> b < upper_index mx e - min'"
proof (cases "sql_case (whens min' (upper_index mx e) e) v")
  case None
  let ?b = "upper_index mx e - min' - 1"
  have "(?b, of_int (min' + ?b + 1) * pow10 e) \<in> set (whens min' (upper_index mx e) e)"
    using assms(2) by (simp add: whens_def image_iff)
  from sql_case_None [OF None this] have "of_int (upper_index mx e) * pow10 e < v" by simp
  with upper_bound_covers [of mx e] assms(1) show ?thesis by simp
next
  case (Some b)
  from sql_case_Some [OF Some] have "b \<in> {0..upper_index mx e - min' - 1}"
    unfolding whens_keys .
  with Some show ?thesis by simp
qed

lemma group_count_keys: "fst ` set (group_count ks) \<subseteq> set ks"
  by (auto simp: group_count_def image_iff List.map_filter_def)

lemma bucket_rows_in_range:
  assumes "\<And>v. v \<in> set vs \<Longrightarrow> v \<le> mx" and "min' < upper_index mx e"
  shows "\<exists>bs. bucket_rows vs min' (upper_index mx e) e = Inr bs
     \<and> (\<forall>(lo, hi, n) \<in> set bs. \<exists>i. 0 \<le> i \<and> i < upper_index mx e - min'
           \<and> lo = of_int (min' + i) * pow10 e \<and> hi = of_int (min' + i + 1) * pow10 e)"
proof -
  let ?ks = "map (sql_case (whens min' (upper_index mx e) e)) vs"
  let ?g = "\<lambda>r. (of_int (min' + the (fst r)) * pow10 e, of_int (min' + the (fst r) + 1) * pow10 e, snd r)"
  have keys: "\<exists>b. k = Some b \<and> 0 \<le> b \<and> b < upper_index mx e - min'" if "k \<in> set ?ks" for k
    using that sql_case_in_range [OF assms(1) assms(2)] by auto
  have rows: "\<exists>b. fst r = Some b \<and> 0 \<le> b \<and> b < upper_index mx e - min'"
    if "r \<in> set (group_count ?ks)" for r
    using that group_count_keys [of ?ks] keys by (metis image_eqI subsetD)
  have "bucket_row min' e r = Inr (?g r)" if "r \<in> set (group_count ?ks)" for r
    using rows [OF that] by (cases r) auto
  then have "bucket_rows vs min' (upper_index mx e) e = Inr (map ?g (group_count ?ks))"
    unfolding bucket_rows_def by (rule sequence_map_Inr)
  moreover have "\<forall>(lo, hi, n) \<in> set (map ?g (group_count ?ks)). \<exists>i. 0 \<le> i \<and> i < upper_index mx e - min'
           \<and> lo = of_int (min' + i) * pow10 e \<and> hi = of_int (min' + i + 1) * pow10 e"
    using rows by fastforce
  ultimately show ?thesis by blast
qed

lemma length_buckets: "length (buckets min' max' e) = nat (max' - min')"
  by (simp add: buckets_def)

text \<open>
  Claim C6. For a column with two different values the loop stops at the first exponent,
  counting down from the starting one, at which \<open>max_ - min_\<close> exceeds \<open>5\<close>; the list of
  buckets built there has at least six entries; and the call returns a list of buckets,
  each with the bounds \<open>(min_ + i) * 10\<^sup>e\<close> and \<open>(min_ + i + 1) * 10\<^sup>e\<close> for an index
  \<open>0 \<le> i < max_ - min_\<close>.
\<close>

theorem number_distribution_buckets:
  assumes "vs \<noteq> []" and "Min (set vs) < Max (set vs)"
  shows "\<exists>k::nat. \<exists>bs.
     (let min_value = Min (set vs); max_value = Max (set vs);
          exponent = start_exponent min_value max_value - int k;
          min' = lower_index min_value exponent; max' = upper_index max_value exponent
      in (\<forall>j<k. \<not> 5 < upper_index max_value (start_exponent min_value max_value - int j)
                       - lower_index min_value (start_exponent min_value max_value - int j))
       \<and> 5 < max' - min'
       \<and> 6 \<le> length (buckets min' max' exponent)
       \<and> number_distribution vs = Some (Inr bs)
       \<and> (\<forall>(lo, hi, n) \<in> set bs. \<exists>i. 0 \<le> i \<and> i < max' - min'
             \<and> lo = of_int (min' + i) * pow10 exponent
             \<and> hi = of_int (min' + i + 1) * pow10 exponent))"
proof -
  let ?mn = "Min (set vs)" and ?mx = "Max (set vs)"
  let ?e = "start_exponent ?mn ?mx"
  from bucket_loop_result [OF assms(2), of ?e vs]
  obtain k :: nat where gap: "min_buckets < upper_index ?mx (?e - int k) - lower_index ?mn (?e - int k)"
    and first: "\<forall>j<k. \<not> min_buckets < upper_index ?mx (?e - int j) - lower_index ?mn (?e - int j)"
    and loop: "bucket_loop vs ?mn ?mx ?e =
           Some (bucket_rows vs (lower_index ?mn (?e - int k)) (upper_index ?mx (?e - int k)) (?e - int k))"
    by blast
  have le: "v \<le> ?mx" if "v \<in> set vs" for v using that by simp
  from gap have pos: "lower_index ?mn (?e - int k) < upper_index ?mx (?e - int k)"
    by (simp add: min_buckets_def)
  from bucket_rows_in_range [of vs ?mx "lower_index ?mn (?e - int k)" "?e - int k", OF le pos]
  obtain bs where bs: "bucket_rows vs (lower_index ?mn (?e - int k)) (upper_index ?mx (?e - int k)) (?e - int k) = Inr bs"
    and range: "\<forall>(lo, hi, n) \<in> set bs. \<exists>i. 0 \<le> i
           \<and> i < upper_index ?mx (?e - int k) - lower_index ?mn (?e - int k)
           \<and> lo = of_int (lower_index ?mn (?e - int k) + i) * pow10 (?e - int k)
           \<and> hi = of_int (lower_index ?mn (?e - int k) + i + 1) * pow10 (?e - int k)"
    by blast
  have nd: "number_distribution vs = Some (Inr bs)"
    using assms loop bs by (simp add: number_distribution_def Let_def)
  have len: "6 \<le> length (buckets (lower_index ?mn (?e - int k)) (upper_index ?mx (?e - int k)) (?e - int k))"
    using gap by (simp add: length_buckets min_buckets_def)
  show ?thesis
    unfolding Let_def
    using first gap len nd range unfolding min_buckets_def by blast
qed

text \<open>The theorem at the values \<open>1, 5, 9, 950, 1000\<close>.\<close>

theorem number_distribution_buckets_witness:
  "example_values \<noteq> []
     \<and> Min (set example_values) < Max (set example_values)
     \<and> number_distribution example_values = Some (Inr [(0, 100, 3), (900, 1000, 2)])
     \<and> (\<exists>k::nat. 5 < upper_index 1000 (3 - int k) - lower_index 1 (3 - int k)
           \<and> 6 \<le> length (buckets (lower_index 1 (3 - int k)) (upper_index 1000 (3 - int k)) (3 - int k)))"
proof -
  have ne: "example_values \<noteq> []" by (simp add: example_values_def)
  have mn: "Min (set example_values) = 1" and mx: "Max (set example_values) = 1000"
    by (simp_all add: example_values_def)
  have lt: "Min (set example_values) < Max (set example_values)" by (simp add: mn mx)
  have se: "start_exponent 1 1000 = 3" by code_simp
  have ev: "number_distribution example_values = Some (Inr [(0, 100, 3), (900, 1000, 2)])"
    unfolding example_values_def by code_simp
  from number_distribution_buckets [OF ne lt]
  have "\<exists>k::nat. 5 < upper_index 1000 (3 - int k) - lower_index 1 (3 - int k)
           \<and> 6 \<le> length (buckets (lower_index 1 (3 - int k)) (upper_index 1000 (3 - int k)) (3 - int k))"
    unfolding Let_def mn mx se by blast
  with ne lt ev show ?thesis by blast
qed

section \<open>Properties of the date distribution\<close>

lemma for_break_find:
  "for_break stop rs cur =
     (case find stop rs of Some r \<Rightarrow> Some r | None \<Rightarrow> if rs = [] then cur else Some (last rs))"
  by (induction rs arbitrary: cur) (auto split: option.splits)

text \<open>
  Claim C7. The resolution chosen is the first of year, month, week, day whose range from
  the least to the greatest date has at least \<open>5\<close> periods, and day when none has; both
  dates are floored to this resolution.
\<close>

theorem date_resolution_coarsest:
  "date_resolution range_len floor_to min_value max_value =
     (let r = (case find (\<lambda>r. 5 \<le> range_len r min_value max_value)
                      [''year'', ''month'', ''week'', ''day''] of
                 Some r \<Rightarrow> r | None \<Rightarrow> ''day'')
      in Inr (r, floor_to r min_value, floor_to r max_value))"
  unfolding date_resolution_def for_break_find
  by (simp add: resolutions_def min_buckets_def Let_def split: option.splits)

text \<open>
  The theorem for a span of 400 days, with the stand-in date library: two years, fourteen
  months, so the month is chosen.
\<close>

theorem date_resolution_coarsest_witness:
  "date_resolution day_range_len day_floor 1000 1400 = Inr (''month'', 990, 1380)
     \<and> day_range_len ''year'' 1000 1400 = 2 \<and> day_range_len ''month'' 1000 1400 = 14"
proof -
  have f: "find (\<lambda>r. 5 \<le> day_range_len r 1000 1400) [''year'', ''month'', ''week'', ''day'']
             = Some ''month''"
    by code_simp
  have fl: "day_floor ''month'' 1000 = 990" "day_floor ''month'' 1400 = 1380"
    by code_simp+
  have rl: "day_range_len ''year'' 1000 1400 = 2 \<and> day_range_len ''month'' 1000 1400 = 14"
    by code_simp
  from date_resolution_coarsest [of day_range_len day_floor 1000 1400] rl
  show ?thesis unfolding f by (simp add: fl)
qed

end
